theory Spec2Isabelle
  imports Main "HOL-Library.Word"
begin

section \<open>The test server of envoy-lb-client (test-server/server.js)\<close>

text \<open>
  The file holds two utility functions (\<open>formatTimestamp\<close>, \<open>generateRandomString\<close>), one
  route handler for \<open>POST /\<close> and the bootstrap function \<open>start\<close>. Each is embedded below as
  a HOL function of the same name. What the JavaScript reads from its environment is an
  explicit argument: the clock (\<open>new Date()\<close>), the entropy source behind
  \<open>crypto.randomBytes\<close>, the outcome of \<open>listen\<close>; what it writes (standard output, standard
  error, the exit code) is a field of the process state.

  Numbers: \<open>sizeInKB\<close> is a JavaScript number. The model takes the integer-valued ones
  (\<open>int\<close>), negative ones included; fractions, NaN and the infinities are outside of it.
  Strings are lists of characters, one \<open>char\<close> per code unit (every string built here is
  ASCII), without the engine's upper limit on the length of a string.
\<close>

subsection \<open>Strings of the JavaScript library\<close>

text \<open>
  \<open>String.prototype.substring(start, end)\<close>: both indices are clamped to \<open>[0, length]\<close>
  and swapped when \<open>start > end\<close>.
\<close>

definition substring :: "string \<Rightarrow> int \<Rightarrow> int \<Rightarrow> string" where
  "substring s start end' =
     (let len = int (length s);
          finalStart = min (max start 0) len;
          finalEnd = min (max end' 0) len;
          from = min finalStart finalEnd;
          to = max finalStart finalEnd
      in take (nat (to - from)) (drop (nat from) s))"

text \<open>
  \<open>String.prototype.padStart(targetLength, padString)\<close>: a string that is long enough, or
  an empty filler, leaves the string as it is; otherwise the filler is repeated and cut to
  the missing length.
\<close>

definition padStart :: "nat \<Rightarrow> string \<Rightarrow> string \<Rightarrow> string" where
  "padStart targetLength padString s =
     (if targetLength \<le> length s \<or> padString = [] then s
      else take (targetLength - length s)
             (concat (replicate (targetLength - length s) padString)) @ s)"

text \<open>\<open>Number.prototype.toString()\<close> on a non-negative integer: its decimal digits.\<close>

definition digit_char :: "nat \<Rightarrow> char" where
  "digit_char d = ''0123456789'' ! d"

fun toString :: "nat \<Rightarrow> string" where
  "toString n = (if n < 10 then [digit_char n] else toString (n div 10) @ [digit_char (n mod 10)])"

declare toString.simps [simp del]

subsection \<open>Buffers: random bytes and their base64 text\<close>

type_synonym byte = "8 word"

text \<open>
  The entropy source is the infinite sequence of bytes that the operating system will
  deliver; \<open>crypto.randomBytes(n)\<close> returns the next \<open>n\<close> of them and leaves the rest.
\<close>

type_synonym entropy = "nat \<Rightarrow> byte"

definition randomBytes :: "nat \<Rightarrow> entropy \<Rightarrow> byte list \<times> entropy" where
  "randomBytes n rnd = (map rnd [0..<n], \<lambda>i. rnd (n + i))"

text \<open>
  \<open>Buffer.prototype.toString('base64')\<close> is the base64 of RFC 4648 with padding: three
  bytes give four characters of the alphabet, each the index of six bits; a rest of one or
  two bytes gives two or three characters and \<open>=\<close> up to four.
\<close>

definition base64_alphabet :: string where
  "base64_alphabet = ''ABCDEFGHIJKLMNOPQRSTUVWXYZabcdefghijklmnopqrstuvwxyz0123456789+/''"

definition base64_char :: "nat \<Rightarrow> char" where
  "base64_char i = base64_alphabet ! i"

fun toString_base64 :: "byte list \<Rightarrow> string" where
  "toString_base64 [] = []"
| "toString_base64 [a] =
     [base64_char (unat a div 4), base64_char (unat a mod 4 * 16), CHR ''='', CHR ''='']"
| "toString_base64 [a, b] =
     [base64_char (unat a div 4), base64_char (unat a mod 4 * 16 + unat b div 16),
      base64_char (unat b mod 16 * 4), CHR ''='']"
| "toString_base64 (a # b # c # rest) =
     [base64_char (unat a div 4), base64_char (unat a mod 4 * 16 + unat b div 16),
      base64_char (unat b mod 16 * 4 + unat c div 64), base64_char (unat c mod 64)]
     @ toString_base64 rest"

subsection \<open>generateRandomString\<close>

text \<open>
  The body of the \<open>while\<close> loop, on the pair of the accumulator \<open>result\<close> and the entropy
  that is left: \<open>result += crypto.randomBytes(1024).toString('base64')\<close>.
\<close>

definition append_chunk :: "string \<times> entropy \<Rightarrow> string \<times> entropy" where
  "append_chunk st =
     (let (bytes, rnd') = randomBytes 1024 (snd st)
      in (fst st @ toString_base64 bytes, rnd'))"

text \<open>
  The loop \<open>while (result.length < sizeInBytes) { ... }\<close>. Nothing in its definition says
  that it ends: a run that never leaves the loop is the value \<open>None\<close>.
\<close>

partial_function (option) generate_loop :: "int \<Rightarrow> string \<times> entropy \<Rightarrow> (string \<times> entropy) option" where
  "generate_loop sizeInBytes st =
     (if int (length (fst st)) < sizeInBytes then generate_loop sizeInBytes (append_chunk st)
      else Some st)"

definition generateRandomString :: "int \<Rightarrow> entropy \<Rightarrow> (string \<times> entropy) option" where
  "generateRandomString sizeInKB rnd =
     (let sizeInBytes = sizeInKB * 1024
      in case generate_loop sizeInBytes ([], rnd) of
           None \<Rightarrow> None
         | Some (result, rnd') \<Rightarrow> Some (substring result 0 sizeInBytes, rnd'))"

subsection \<open>formatTimestamp\<close>

text \<open>
  A \<open>Date\<close> is its time value, the milliseconds since the epoch, together with the offset
  of the local time zone at that moment. The getters are those of ECMAScript: the local
  time is the sum of the two, and the hour, minute, second and millisecond are its
  quotients by 3600000, 60000, 1000 and 1, each modulo the size of the next unit, with the
  quotient and the remainder of the floor (so that a time before the epoch has
  non-negative fields as well).
\<close>

record date =
  timeValue :: int
  localTZA :: int

definition localTime :: "date \<Rightarrow> int" where
  "localTime d = timeValue d + localTZA d"

definition getHours :: "date \<Rightarrow> nat" where
  "getHours d = nat (localTime d div 3600000 mod 24)"

definition getMinutes :: "date \<Rightarrow> nat" where
  "getMinutes d = nat (localTime d div 60000 mod 60)"

definition getSeconds :: "date \<Rightarrow> nat" where
  "getSeconds d = nat (localTime d div 1000 mod 60)"

definition getMilliseconds :: "date \<Rightarrow> nat" where
  "getMilliseconds d = nat (localTime d mod 1000)"

text \<open>The argument is the value of \<open>new Date()\<close>, the reading of the clock.\<close>

definition formatTimestamp :: "date \<Rightarrow> string" where
  "formatTimestamp now =
     (let hours = padStart 2 ''0'' (toString (getHours now));
          minutes = padStart 2 ''0'' (toString (getMinutes now));
          seconds = padStart 2 ''0'' (toString (getSeconds now));
          milliseconds = padStart 6 ''0'' (toString (getMilliseconds now))
      in ''['' @ hours @ '':'' @ minutes @ '':'' @ seconds @ ''.'' @ milliseconds @ '']'')"

subsection \<open>The process and the handler of POST /\<close>

text \<open>
  The state of the process: the clock and the entropy it reads, the lines it has written
  to standard output and to standard error, the address it listens on, and its exit code
  once \<open>process.exit\<close> has been called.
\<close>

record listen_options =
  port :: nat
  host :: string

record process =
  clock :: date
  random_source :: entropy
  stdout :: "string list"
  stderr :: "string list"
  listening :: "listen_options option"
  exit_code :: "int option"

definition console_log :: "string \<Rightarrow> process \<Rightarrow> process" where
  "console_log line p = p\<lparr>stdout := stdout p @ [line]\<rparr>"

definition console_error :: "string \<Rightarrow> process \<Rightarrow> process" where
  "console_error line p = p\<lparr>stderr := stderr p @ [line]\<rparr>"

definition process_exit :: "int \<Rightarrow> process \<Rightarrow> process" where
  "process_exit code p = p\<lparr>exit_code := Some code\<rparr>"

text \<open>
  \<open>request.headers\<close> maps the lower-case name of a header to its value, a string; a header
  that was not sent is \<open>undefined\<close>, here \<open>None\<close>. Of these values only \<open>undefined\<close> and
  the empty string are falsy.
  The request has its body as well, the text that was sent; the handler does not read it.
\<close>

record request =
  headers :: "string \<rightharpoonup> string"
  raw_body :: string

definition truthy :: "string option \<Rightarrow> bool" where
  "truthy v = (case v of None \<Rightarrow> False | Some s \<Rightarrow> s \<noteq> [])"

text \<open>\<open>v || d\<close> for a header value \<open>v\<close> and a string \<open>d\<close>.\<close>

definition or_default :: "string option \<Rightarrow> string \<Rightarrow> string" where
  "or_default v d = (case v of None \<Rightarrow> d | Some s \<Rightarrow> if s = [] then d else s)"

text \<open>The two constants that the handler computes from the request.\<close>

definition myId :: "request \<Rightarrow> string" where
  "myId request = or_default (headers request ''my_id'') ''unknown''"

definition protocol :: "request \<Rightarrow> string" where
  "protocol request = (if truthy (headers request '':scheme'') then ''HTTP/2'' else ''HTTP/1.1'')"

text \<open>
  The object that the handler returns is a list of keys and values in the order of the
  object literal. The library keeps the status code in the reply, which the handler
  receives and does not touch.
\<close>

datatype json = JString string

type_synonym json_object = "(string \<times> json) list"

record reply =
  statusCode :: nat

definition handler :: "request \<Rightarrow> reply \<Rightarrow> process \<Rightarrow> (json_object \<times> reply \<times> process) option" where
  "handler request rep p =
     (let p1 = console_log (formatTimestamp (clock p) @ '' '' @ myId request
                 @ '' arrived ('' @ protocol request @ '')'') p
      in case generateRandomString 300 (random_source p1) of
           None \<Rightarrow> None
         | Some (response_body, rnd') \<Rightarrow>
             Some ([(''status'', JString ''ok''), (''data'', JString response_body)],
                   rep, p1\<lparr>random_source := rnd'\<rparr>))"

subsection \<open>The stages before the handler\<close>

text \<open>
  The source creates the server without HTTP/2 and registers no content type parser, so a
  request to \<open>POST /\<close> passes two stages of the libraries before the handler, and each of
  them can answer the request itself:
  \<^item> Node's HTTP/1.1 parser answers 400 when the name of a header is not a token. The
    names of the pseudo-headers of an HTTP/2 request, with their colon, are none; of the
    names that the parser refuses the model has these four.
  \<^item> Fastify then looks for the parser of the content type. A request without a content
    type and without a body (no \<open>transfer-encoding\<close>, and a \<open>content-length\<close> that is
    missing or \<open>0\<close>) goes to the handler as it is. For every other request the library
    answers 415 when it finds no parser for the content type, and otherwise gives the
    body to the parser that it finds; when that parser fails (400 for a body that it
    cannot read, 413 for one that is too long), its error is the answer.

  The parsers of the library are an argument of the model: for a content type, the
  parser that the lookup finds, if any; and a parser maps a body to the status of its
  error, if any.
\<close>

definition pseudo_header_names :: "string list" where
  "pseudo_header_names = ['':method'', '':scheme'', '':authority'', '':path'']"

definition carries_pseudo_headers :: "request \<Rightarrow> bool" where
  "carries_pseudo_headers request =
     list_ex (\<lambda>name. headers request name \<noteq> None) pseudo_header_names"

type_synonym parsers = "string \<Rightarrow> (string \<Rightarrow> nat option) option"

definition has_no_body :: "request \<Rightarrow> bool" where
  "has_no_body request =
     (headers request ''transfer-encoding'' = None \<and>
      (headers request ''content-length'' = None \<or> headers request ''content-length'' = Some ''0''))"

definition contentTypeParser_run :: "parsers \<Rightarrow> string \<Rightarrow> request \<Rightarrow> nat option" where
  "contentTypeParser_run ps contentType request =
     (case ps contentType of
        None \<Rightarrow> Some 415
      | Some parser \<Rightarrow> parser (raw_body request))"

definition before_handler :: "parsers \<Rightarrow> request \<Rightarrow> nat option" where
  "before_handler ps request =
     (if carries_pseudo_headers request then Some 400
      else case headers request ''content-type'' of
             None \<Rightarrow>
               if has_no_body request then None else contentTypeParser_run ps [] request
           | Some contentType \<Rightarrow> contentTypeParser_run ps contentType request)"

text \<open>
  The answer to a request is either the library's own error, of which the model keeps
  the status (its body describes the error and has none of the handler's fields), or the
  handler's: the reply starts with status code 200, the handler receives it, and the
  object that the handler's promise resolves to is sent as the JSON body under the status
  code of the reply.
\<close>

record response =
  status :: nat
  body :: json_object

datatype outcome = Handled response | Refused nat

definition http11Server_post :: "parsers \<Rightarrow> request \<Rightarrow> process \<Rightarrow> (outcome \<times> process) option" where
  "http11Server_post ps request p =
     (case before_handler ps request of
        Some code \<Rightarrow> Some (Refused code, p)
      | None \<Rightarrow>
          (case handler request \<lparr>statusCode = 200\<rparr> p of
             None \<Rightarrow> None
           | Some (payload, rep, p') \<Rightarrow>
               Some (Handled \<lparr>status = statusCode rep, body = payload\<rparr>, p')))"

subsection \<open>The server and its start\<close>

record fastify_options =
  http2 :: bool
  logger :: bool

definition http11Server_options :: fastify_options where
  "http11Server_options = \<lparr>http2 = False, logger = False\<rparr>"

text \<open>
  \<open>listen\<close> asks the operating system for the address. Whether the address is granted is
  the environment's answer \<open>os_bind\<close>: \<open>None\<close> when the socket is bound, the error otherwise
  (a port in use, for one). A bound server is recorded in the process; a failure rejects
  the promise, which is the \<open>Inl\<close> here.
\<close>

definition listen :: "(listen_options \<Rightarrow> string option) \<Rightarrow> listen_options \<Rightarrow> process \<Rightarrow> string + process" where
  "listen os_bind opts p =
     (case os_bind opts of
        Some err \<Rightarrow> Inl err
      | None \<Rightarrow> Inr (p\<lparr>listening := Some opts\<rparr>))"

definition start :: "(listen_options \<Rightarrow> string option) \<Rightarrow> process \<Rightarrow> process" where
  "start os_bind p =
     (case listen os_bind \<lparr>port = 24420, host = ''0.0.0.0''\<rparr> p of
        Inr p' \<Rightarrow> console_log ''HTTP server (HTTP/1.1) is running on port 24420'' p'
      | Inl err \<Rightarrow> process_exit 1 (console_error err p))"

subsection \<open>The generator as the specification describes it\<close>

text \<open>
  The specification's algorithm, written without the loop: after \<open>n\<close> rounds of drawing
  1024 bytes, encoding them and appending the text, the accumulator is
  \<open>spec_accumulate n\<close>, the encodings of the first \<open>n\<close> blocks of 1024 bytes of the entropy.
  The rounds stop at the first \<open>n\<close> whose accumulator reaches the target, and the result is
  that accumulator cut to the target length.
\<close>

primrec spec_accumulate :: "nat \<Rightarrow> entropy \<Rightarrow> string" where
  "spec_accumulate 0 rnd = []"
| "spec_accumulate (Suc n) rnd =
     spec_accumulate n rnd @ toString_base64 (map rnd [1024 * n ..< 1024 * n + 1024])"

definition spec_stops_after :: "int \<Rightarrow> entropy \<Rightarrow> nat \<Rightarrow> bool" where
  "spec_stops_after sizeInBytes rnd n =
     (sizeInBytes \<le> int (length (spec_accumulate n rnd)) \<and>
      (\<forall>m<n. int (length (spec_accumulate m rnd)) < sizeInBytes))"

definition spec_generateRandomString :: "int \<Rightarrow> entropy \<Rightarrow> nat \<Rightarrow> string" where
  "spec_generateRandomString sizeInKB rnd n = take (nat (sizeInKB * 1024)) (spec_accumulate n rnd)"

text \<open>The number of chunks of 1368 characters that cover a target: its quotient by 1368, rounded up.\<close>

definition chunks_needed :: "int \<Rightarrow> nat" where
  "chunks_needed sizeInBytes = (nat sizeInBytes + 1367) div 1368"

subsection \<open>Concrete inputs\<close>

text \<open>
  A request with the header \<open>my_id: tester1\<close> and no body, and a process whose clock reads
  2024-01-02 03:04:05.067 local time (UTC plus nine hours) and whose entropy counts up
  from 0 (the byte at index \<open>i\<close> is \<open>i mod 256\<close>).
\<close>

definition tester1_request :: request where
  "tester1_request = \<lparr>headers = [''my_id'' \<mapsto> ''tester1''], raw_body = []\<rparr>"

definition counting_entropy :: entropy where
  "counting_entropy = (\<lambda>i. of_nat i)"

definition fresh_process :: process where
  "fresh_process =
     \<lparr>clock = \<lparr>timeValue = 1704132245067, localTZA = 32400000\<rparr>,
      random_source = counting_entropy,
      stdout = [], stderr = [], listening = None, exit_code = None\<rparr>"

text \<open>A request without headers, and one that sends \<open>my_id\<close> with an empty value.\<close>

definition anonymous_request :: request where
  "anonymous_request = \<lparr>headers = Map.empty, raw_body = []\<rparr>"

definition empty_id_request :: request where
  "empty_id_request = \<lparr>headers = [''my_id'' \<mapsto> []], raw_body = []\<rparr>"



text \<open>
  Fastify's two default parsers, for \<open>application/json\<close> and \<open>text/plain\<close>, as far as the
  examples need them: the lookup by the media type (the content type up to its
  parameters), the limit of 1 MiB on the body, and the refusal of an empty JSON body.
  Whether a body that is not empty is JSON is not decided here; no example has such a
  body.
\<close>

definition media_type :: "string \<Rightarrow> string" where
  "media_type contentType = takeWhile (\<lambda>c. c \<noteq> CHR '';'' \<and> c \<noteq> CHR '' '') contentType"

definition bodyLimit :: nat where
  "bodyLimit = 1048576"

definition json_and_text_parsers :: parsers where
  "json_and_text_parsers contentType =
     (if media_type contentType = ''application/json'' then
        Some (\<lambda>raw. if bodyLimit < length raw then Some 413
                     else if raw = [] then Some 400 else None)
      else if media_type contentType = ''text/plain'' then
        Some (\<lambda>raw. if bodyLimit < length raw then Some 413 else None)
      else None)"

text \<open>Two requests with a body whose content type has no parser: a form and an XML text.\<close>

definition form_request :: request where
  "form_request =
     \<lparr>headers = [''content-type'' \<mapsto> ''application/x-www-form-urlencoded'',
                 ''content-length'' \<mapsto> ''3'', ''my_id'' \<mapsto> ''tester1''],
      raw_body = ''a=1''\<rparr>"

definition xml_request :: request where
  "xml_request =
     \<lparr>headers = [''content-type'' \<mapsto> ''application/xml'', ''content-length'' \<mapsto> ''4''],
      raw_body = ''<a/>''\<rparr>"

subsection \<open>The protocol label as the specification describes it\<close>


subsection \<open>The caller identifier as the specification describes it\<close>

text \<open>The value of the header if the header is present, the literal \<open>unknown\<close> otherwise.\<close>

definition spec_identifier :: "request \<Rightarrow> string" where
  "spec_identifier request =
     (case headers request ''my_id'' of None \<Rightarrow> ''unknown'' | Some v \<Rightarrow> v)"

text \<open>The same process with an entropy source that delivers the byte 0 only.\<close>

definition zero_process :: process where
  "zero_process = fresh_process\<lparr>random_source := \<lambda>i. 0\<rparr>"

section \<open>The loop and the accumulator\<close>

lemma length_toString_base64:
  "length (toString_base64 bs) = 4 * ((length bs + 2) div 3)"
proof (induction bs rule: toString_base64.induct)
  case (4 a b c rest)
  have "(length rest + 5) div 3 = (length rest + 2) div 3 + 1" by arith
  with 4 show ?case by (simp add: add.commute)
qed simp_all

lemma fst_append_chunk:
  "fst (append_chunk st) = fst st @ toString_base64 (map (snd st) [0..<1024])"
  by (simp add: append_chunk_def randomBytes_def)

lemma snd_append_chunk: "snd (append_chunk st) = (\<lambda>i. snd st (1024 + i))"
  by (simp add: append_chunk_def randomBytes_def)

lemma length_append_chunk:
  "length (fst (append_chunk st)) = length (fst st) + 1368"
  by (simp add: fst_append_chunk length_toString_base64)

lemma length_funpow_append_chunk:
  "length (fst ((append_chunk ^^ n) st)) = length (fst st) + 1368 * n"
  by (induction n) (simp_all add: length_append_chunk)

lemma generate_loop_unroll:
  "(\<forall>m<k. int (length (fst ((append_chunk ^^ m) st))) < t) \<Longrightarrow>
   t \<le> int (length (fst ((append_chunk ^^ k) st))) \<Longrightarrow>
   generate_loop t st = Some ((append_chunk ^^ k) st)"
proof (induction k arbitrary: st)
  case 0
  then show ?case by (simp add: generate_loop.simps)
next
  case (Suc k)
  from Suc.prems(1) have now: "int (length (fst st)) < t" by force
  have "\<forall>m<k. int (length (fst ((append_chunk ^^ m) (append_chunk st)))) < t"
  proof (intro allI impI)
    fix m assume "m < k"
    then have "Suc m < Suc k" by simp
    with Suc.prems(1) have "int (length (fst ((append_chunk ^^ Suc m) st))) < t" by blast
    then show "int (length (fst ((append_chunk ^^ m) (append_chunk st)))) < t"
      by (simp add: funpow_swap1)
  qed
  moreover from Suc.prems(2) have "t \<le> int (length (fst ((append_chunk ^^ k) (append_chunk st))))"
    by (simp add: funpow_swap1)
  ultimately have "generate_loop t (append_chunk st) = Some ((append_chunk ^^ k) (append_chunk st))"
    by (rule Suc.IH)
  with now show ?case
    by (subst generate_loop.simps) (simp add: funpow_swap1)
qed

lemma chunks_needed_reaches: "t \<le> int (1368 * chunks_needed t)"
  unfolding chunks_needed_def by arith

lemma chunks_needed_least: "m < chunks_needed t \<Longrightarrow> int (1368 * m) < t"
  unfolding chunks_needed_def by arith

lemma generate_loop_from:
  "generate_loop t st =
     Some ((append_chunk ^^ chunks_needed (t - int (length (fst st)))) st)"
proof (rule generate_loop_unroll)
  show "\<forall>m<chunks_needed (t - int (length (fst st))).
          int (length (fst ((append_chunk ^^ m) st))) < t"
  proof (intro allI impI)
    fix m assume "m < chunks_needed (t - int (length (fst st)))"
    then have "int (1368 * m) < t - int (length (fst st))" by (rule chunks_needed_least)
    then show "int (length (fst ((append_chunk ^^ m) st))) < t"
      by (simp add: length_funpow_append_chunk)
  qed
  show "t \<le> int (length (fst ((append_chunk ^^ chunks_needed (t - int (length (fst st)))) st)))"
    using chunks_needed_reaches [of "t - int (length (fst st))"]
    by (simp add: length_funpow_append_chunk)
qed

lemma append_chunk_pair:
  "append_chunk (acc, r) = (acc @ toString_base64 (map r [0..<1024]), \<lambda>i. r (1024 + i))"
  by (simp add: append_chunk_def randomBytes_def)

lemma funpow_append_chunk:
  "(append_chunk ^^ n) ([], rnd) = (spec_accumulate n rnd, \<lambda>i. rnd (1024 * n + i))"
proof (induction n)
  case 0
  show ?case by simp
next
  case (Suc n)
  have bytes: "map (\<lambda>i. rnd (1024 * n + i)) [0..<1024] = map rnd [1024 * n ..< 1024 * n + 1024]"
    by (simp add: map_add_upt [symmetric] comp_def add.commute del: upt_Suc)
  have rest: "(\<lambda>i. rnd (1024 * n + (1024 + i))) = (\<lambda>i. rnd (1024 * Suc n + i))"
    by (simp add: ac_simps)
  have "(append_chunk ^^ Suc n) ([], rnd) =
      append_chunk (spec_accumulate n rnd, \<lambda>i. rnd (1024 * n + i))"
    using Suc by simp
  also have "\<dots> = (spec_accumulate n rnd @ toString_base64 (map (\<lambda>i. rnd (1024 * n + i)) [0..<1024]),
      \<lambda>i. rnd (1024 * n + (1024 + i)))"
    by (rule append_chunk_pair)
  also have "\<dots> = (spec_accumulate (Suc n) rnd, \<lambda>i. rnd (1024 * Suc n + i))"
    unfolding bytes rest by simp
  finally show ?case .
qed

lemma length_spec_accumulate: "length (spec_accumulate n rnd) = 1368 * n"
  by (induction n) (simp_all add: length_toString_base64)

lemma generateRandomString_eq:
  "generateRandomString sizeInKB rnd =
     Some (take (nat (sizeInKB * 1024)) (spec_accumulate (chunks_needed (sizeInKB * 1024)) rnd),
           \<lambda>i. rnd (1024 * chunks_needed (sizeInKB * 1024) + i))"
  by (simp add: generateRandomString_def generate_loop_from funpow_append_chunk substring_def Let_def)
     (auto simp: min_def max_def)

lemma spec_stops_after_iff:
  "spec_stops_after t rnd n \<longleftrightarrow> n = chunks_needed t"
proof
  assume s: "spec_stops_after t rnd n"
  show "n = chunks_needed t"
  proof (rule ccontr)
    assume "n \<noteq> chunks_needed t"
    then consider "n < chunks_needed t" | "chunks_needed t < n" by linarith
    then show False
    proof cases
      case 1
      then have "int (1368 * n) < t" by (rule chunks_needed_least)
      with s show False by (simp add: spec_stops_after_def length_spec_accumulate)
    next
      case 2
      with s have "int (1368 * chunks_needed t) < t"
        by (simp add: spec_stops_after_def length_spec_accumulate)
      with chunks_needed_reaches [of t] show False by simp
    qed
  qed
next
  assume "n = chunks_needed t"
  then show "spec_stops_after t rnd n"
    using chunks_needed_reaches [of t] chunks_needed_least [of _ t]
    by (simp add: spec_stops_after_def length_spec_accumulate)
qed


lemma chunks_needed_300: "chunks_needed 307200 = 225"
  by (simp add: chunks_needed_def)

lemma handler_eq:
  "handler request rep p =
     Some ([(''status'', JString ''ok''),
            (''data'', JString (take 307200 (spec_accumulate 225 (random_source p))))],
           rep,
           (console_log (formatTimestamp (clock p) @ '' '' @ myId request
              @ '' arrived ('' @ protocol request @ '')'') p)
           \<lparr>random_source := \<lambda>i. random_source p (230400 + i)\<rparr>)"
  by (simp add: handler_def Let_def generateRandomString_eq chunks_needed_300 console_log_def)

lemma http11Server_post_eq:
  "before_handler ps request = None \<Longrightarrow>
   http11Server_post ps request p =
     Some (Handled \<lparr>status = 200,
            body = [(''status'', JString ''ok''),
                    (''data'', JString (take 307200 (spec_accumulate 225 (random_source p))))]\<rparr>,
           (console_log (formatTimestamp (clock p) @ '' '' @ myId request
              @ '' arrived ('' @ protocol request @ '')'') p)
           \<lparr>random_source := \<lambda>i. random_source p (230400 + i)\<rparr>)"
  by (simp add: http11Server_post_def handler_eq)

lemma media_type_form: "media_type ''application/x-www-form-urlencoded'' = ''application/x-www-form-urlencoded''"
  by (simp add: media_type_def)

lemma media_type_xml: "media_type ''application/xml'' = ''application/xml''"
  by (simp add: media_type_def)

lemma before_handler_tester1: "before_handler ps tester1_request = None"
  by (simp add: before_handler_def carries_pseudo_headers_def pseudo_header_names_def
        has_no_body_def tester1_request_def)

section \<open>The size of the payload\<close>

text \<open>
  C1, as the specification states it, fails on a request whose content type has no
  parser: the source registers none, and for a form sent to \<open>POST /\<close> the library answers
  415 itself. The handler does not run (nothing is logged, no entropy is drawn) and the
  answer has no \<open>data\<close>.
\<close>

theorem data_counterexample:
  "http11Server_post json_and_text_parsers form_request fresh_process =
     Some (Refused 415, fresh_process)"
  by (simp add: http11Server_post_def before_handler_def carries_pseudo_headers_def
        pseudo_header_names_def form_request_def contentTypeParser_run_def
        json_and_text_parsers_def media_type_form)

text \<open>
  C1, amended: every request to \<open>POST /\<close> that the libraries hand to the handler is
  answered by the handler, and the \<open>data\<close> field of the answer has exactly 307200
  characters, whatever the headers, the clock and the entropy are; and
  \<open>generateRandomString\<close>, given a size in KiB (a non-negative integer), returns a string
  of exactly \<open>size * 1024\<close> characters.
\<close>

theorem data_has_307200_characters:
  "(before_handler ps request = None \<longrightarrow>
      (\<exists>resp p' d. http11Server_post ps request p = Some (Handled resp, p') \<and>
         map_of (body resp) ''data'' = Some (JString d) \<and> length d = 307200)) \<and>
   (\<exists>payload p' d. handler request rep p = Some (payload, rep, p') \<and>
      map_of payload ''data'' = Some (JString d) \<and> length d = 307200) \<and>
   (0 \<le> sizeInKB \<longrightarrow>
      (\<exists>s r. generateRandomString sizeInKB rnd = Some (s, r) \<and> int (length s) = sizeInKB * 1024))"
proof (intro conjI impI)
  assume "before_handler ps request = None"
  then show "\<exists>resp p' d. http11Server_post ps request p = Some (Handled resp, p') \<and>
       map_of (body resp) ''data'' = Some (JString d) \<and> length d = 307200"
    by (simp add: http11Server_post_eq length_spec_accumulate)
next
  show "\<exists>payload p' d. handler request rep p = Some (payload, rep, p') \<and>
      map_of payload ''data'' = Some (JString d) \<and> length d = 307200"
    by (simp add: handler_eq length_spec_accumulate)
next
  assume "0 \<le> sizeInKB"
  moreover have "sizeInKB * 1024 \<le> int (1368 * chunks_needed (sizeInKB * 1024))"
    by (rule chunks_needed_reaches)
  ultimately show "\<exists>s r. generateRandomString sizeInKB rnd = Some (s, r) \<and>
      int (length s) = sizeInKB * 1024"
    by (simp add: generateRandomString_eq length_spec_accumulate)
qed

theorem data_has_307200_characters_witness:
  "before_handler json_and_text_parsers tester1_request = None \<and>
   (\<exists>resp p' d.
      http11Server_post json_and_text_parsers tester1_request fresh_process = Some (Handled resp, p') \<and>
      map_of (body resp) ''data'' = Some (JString d) \<and> length d = 307200) \<and>
   (0::int) \<le> 300 \<and>
   (\<exists>s r. generateRandomString 300 counting_entropy = Some (s, r) \<and> int (length s) = 300 * 1024)"
  using data_has_307200_characters
    [of json_and_text_parsers tester1_request fresh_process "\<lparr>statusCode = 200\<rparr>" 300 counting_entropy]
    before_handler_tester1 [of json_and_text_parsers]
  by simp

section \<open>The algorithm of the generator\<close>

text \<open>
  C2: \<open>generateRandomString\<close> computes what the specification's algorithm computes. The
  rounds of drawing 1024 bytes, encoding and appending stop after some number of rounds
  (the accumulator has reached the target, and had not before), and at whatever number
  of rounds they stop, the result of the code is that accumulator cut to the target length;
  the entropy that the code leaves is the entropy after that many draws of 1024 bytes.
\<close>

theorem generateRandomString_refines_spec:
  "(\<exists>n. spec_stops_after (sizeInKB * 1024) rnd n) \<and>
   (\<forall>n. spec_stops_after (sizeInKB * 1024) rnd n \<longrightarrow>
      generateRandomString sizeInKB rnd =
        Some (spec_generateRandomString sizeInKB rnd n, \<lambda>i. rnd (1024 * n + i)))"
proof (intro conjI allI impI)
  show "\<exists>n. spec_stops_after (sizeInKB * 1024) rnd n"
    by (simp add: spec_stops_after_iff)
next
  fix n
  assume "spec_stops_after (sizeInKB * 1024) rnd n"
  then have "n = chunks_needed (sizeInKB * 1024)"
    by (simp add: spec_stops_after_iff)
  then show "generateRandomString sizeInKB rnd =
      Some (spec_generateRandomString sizeInKB rnd n, \<lambda>i. rnd (1024 * n + i))"
    by (simp add: generateRandomString_eq spec_generateRandomString_def)
qed

theorem generateRandomString_refines_spec_witness:
  "spec_stops_after (1 * 1024) counting_entropy 1 \<and>
   generateRandomString 1 counting_entropy =
     Some (spec_generateRandomString 1 counting_entropy 1, \<lambda>i. counting_entropy (1024 * 1 + i))"
proof -
  have stops: "spec_stops_after (1 * 1024) counting_entropy 1"
    by (simp add: spec_stops_after_def length_toString_base64)
  with generateRandomString_refines_spec [of 1 counting_entropy] show ?thesis
    by blast
qed

section \<open>Termination of the loop\<close>

text \<open>
  C10: the loop of \<open>generateRandomString\<close> ends for every size (and from every state of the
  accumulator): one pass of its body makes the accumulator longer by exactly 1368
  characters, the length of the base64 text of 1024 bytes, so the loop returns after
  the number of passes that covers what is missing, \<open>chunks_needed\<close>, a finite number.
  Hence \<open>generateRandomString\<close> returns for every size; for a size of 0 or less the body
  never runs: no entropy is drawn and the result is the empty string.
\<close>

theorem generate_loop_terminates:
  "length (fst (append_chunk st)) = length (fst st) + 1368 \<and>
   generate_loop sizeInBytes st =
     Some ((append_chunk ^^ chunks_needed (sizeInBytes - int (length (fst st)))) st) \<and>
   (\<exists>s r. generateRandomString sizeInKB rnd = Some (s, r)) \<and>
   (sizeInKB \<le> 0 \<longrightarrow>
      generate_loop (sizeInKB * 1024) ([], rnd) = Some ([], rnd) \<and>
      generateRandomString sizeInKB rnd = Some ([], rnd))"
proof (intro conjI impI)
  show "length (fst (append_chunk st)) = length (fst st) + 1368"
    by (rule length_append_chunk)
  show "generate_loop sizeInBytes st =
     Some ((append_chunk ^^ chunks_needed (sizeInBytes - int (length (fst st)))) st)"
    by (rule generate_loop_from)
  show "\<exists>s r. generateRandomString sizeInKB rnd = Some (s, r)"
    by (simp add: generateRandomString_eq)
next
  assume "sizeInKB \<le> 0"
  then have none: "chunks_needed (sizeInKB * 1024) = 0"
    by (simp add: chunks_needed_def)
  then show "generate_loop (sizeInKB * 1024) ([], rnd) = Some ([], rnd)"
    by (simp add: generate_loop_from)
  from none show "generateRandomString sizeInKB rnd = Some ([], rnd)"
    by (simp add: generateRandomString_eq)
qed

theorem generate_loop_terminates_witness:
  "(-1 :: int) \<le> 0 \<and>
   generate_loop (-1 * 1024) ([], counting_entropy) = Some ([], counting_entropy) \<and>
   generateRandomString (-1) counting_entropy = Some ([], counting_entropy)"
  using generate_loop_terminates [of "([], counting_entropy)" 0 "-1" counting_entropy]
  by simp

section \<open>The timestamp and the log line\<close>

lemma toString_1: "n < 10 \<Longrightarrow> toString n = [digit_char n]"
  by (simp add: toString.simps)

lemma toString_2: "10 \<le> n \<Longrightarrow> n < 100 \<Longrightarrow> toString n = [digit_char (n div 10), digit_char (n mod 10)]"
  by (subst toString.simps) (simp add: toString_1)

lemma toString_3:
  "100 \<le> n \<Longrightarrow> n < 1000 \<Longrightarrow>
   toString n = [digit_char (n div 100), digit_char (n div 10 mod 10), digit_char (n mod 10)]"
  by (subst toString.simps) (simp add: toString_2 div_mult2_eq [symmetric])

lemma digit_char_0: "digit_char 0 = CHR ''0''"
  by (simp add: digit_char_def)

lemma padStart_2:
  assumes "n < 100"
  shows "padStart 2 ''0'' (toString n) = [digit_char (n div 10), digit_char (n mod 10)]"
proof (cases "n < 10")
  case True
  then show ?thesis by (simp add: padStart_def toString_1 digit_char_0)
next
  case False
  with assms show ?thesis by (simp add: padStart_def toString_2)
qed

lemma padStart_6:
  assumes "n < 1000"
  shows "padStart 6 ''0'' (toString n) =
    ''000'' @ [digit_char (n div 100), digit_char (n div 10 mod 10), digit_char (n mod 10)]"
proof -
  have zeros: "replicate 5 CHR ''0'' = ''00000''" "replicate 4 CHR ''0'' = ''0000''"
    "replicate 3 CHR ''0'' = ''000''"
    by (simp_all add: eval_nat_numeral)
  consider "n < 10" | "10 \<le> n" "n < 100" | "100 \<le> n"
    by linarith
  then show ?thesis
  proof cases
    case 1
    then show ?thesis by (simp add: padStart_def toString_1 digit_char_0 zeros)
  next
    case 2
    then show ?thesis by (simp add: padStart_def toString_2 digit_char_0 zeros)
  next
    case 3
    with assms show ?thesis by (simp add: padStart_def toString_3 zeros)
  qed
qed

lemma getHours_less: "getHours d < 24"
  by (simp add: getHours_def)

lemma getMinutes_less: "getMinutes d < 60"
  by (simp add: getMinutes_def)

lemma getSeconds_less: "getSeconds d < 60"
  by (simp add: getSeconds_def)

lemma getMilliseconds_less: "getMilliseconds d < 1000"
  by (simp add: getMilliseconds_def)

text \<open>
  C6: for every reading of the clock, \<open>formatTimestamp\<close> returns the seventeen characters
  \<open>[HH:MM:SS.000sss]\<close>: the hour (below 24), the minute and the second (below 60) with
  two decimal digits each, and the millisecond (below 1000) in a field of six digits,
  which therefore starts with three zeros. The handler writes one line to standard
  output: this timestamp, a space, the identifier, the word \<open>arrived\<close> and the protocol
  label in parentheses.
\<close>

theorem formatTimestamp_form:
  "formatTimestamp now =
     [CHR ''['', digit_char (getHours now div 10), digit_char (getHours now mod 10),
      CHR '':'', digit_char (getMinutes now div 10), digit_char (getMinutes now mod 10),
      CHR '':'', digit_char (getSeconds now div 10), digit_char (getSeconds now mod 10),
      CHR ''.'', CHR ''0'', CHR ''0'', CHR ''0'',
      digit_char (getMilliseconds now div 100), digit_char (getMilliseconds now div 10 mod 10),
      digit_char (getMilliseconds now mod 10), CHR '']''] \<and>
   getHours now < 24 \<and> getMinutes now < 60 \<and> getSeconds now < 60 \<and>
   getMilliseconds now < 1000 \<and>
   (\<exists>payload rep' p'. handler request rep p = Some (payload, rep', p') \<and>
      stdout p' = stdout p @
        [formatTimestamp (clock p) @ '' '' @ myId request @ '' arrived ('' @ protocol request @ '')''])"
proof (intro conjI)
  show "formatTimestamp now =
     [CHR ''['', digit_char (getHours now div 10), digit_char (getHours now mod 10),
      CHR '':'', digit_char (getMinutes now div 10), digit_char (getMinutes now mod 10),
      CHR '':'', digit_char (getSeconds now div 10), digit_char (getSeconds now mod 10),
      CHR ''.'', CHR ''0'', CHR ''0'', CHR ''0'',
      digit_char (getMilliseconds now div 100), digit_char (getMilliseconds now div 10 mod 10),
      digit_char (getMilliseconds now mod 10), CHR '']'']"
    using getHours_less [of now] getMinutes_less [of now] getSeconds_less [of now]
      getMilliseconds_less [of now]
    by (simp add: formatTimestamp_def padStart_2 padStart_6)
  show "\<exists>payload rep' p'. handler request rep p = Some (payload, rep', p') \<and>
      stdout p' = stdout p @
        [formatTimestamp (clock p) @ '' '' @ myId request @ '' arrived ('' @ protocol request @ '')'']"
    by (simp add: handler_eq console_log_def)
qed (rule getHours_less getMinutes_less getSeconds_less getMilliseconds_less)+

theorem formatTimestamp_form_witness:
  "formatTimestamp (clock fresh_process) = ''[03:04:05.000067]'' \<and>
   (\<exists>payload rep' p'.
      handler tester1_request \<lparr>statusCode = 200\<rparr> fresh_process = Some (payload, rep', p') \<and>
      stdout p' = [''[03:04:05.000067] tester1 arrived (HTTP/1.1)''])"
proof -
  note form = formatTimestamp_form
    [of "clock fresh_process" tester1_request "\<lparr>statusCode = 200\<rparr>" fresh_process]
  have ts: "formatTimestamp (clock fresh_process) = ''[03:04:05.000067]''"
    using form
    by (simp add: fresh_process_def getHours_def getMinutes_def getSeconds_def
          getMilliseconds_def localTime_def digit_char_def)
  have ids: "myId tester1_request = ''tester1''" "protocol tester1_request = ''HTTP/1.1''"
    by (simp_all add: myId_def protocol_def tester1_request_def or_default_def truthy_def)
  have out: "stdout fresh_process = []"
    by (simp add: fresh_process_def)
  from form obtain payload rep' p' where
    run: "handler tester1_request \<lparr>statusCode = 200\<rparr> fresh_process = Some (payload, rep', p')" and
    line: "stdout p' = stdout fresh_process @
      [formatTimestamp (clock fresh_process) @ '' '' @ myId tester1_request
         @ '' arrived ('' @ protocol tester1_request @ '')'']"
    by blast
  from line have "stdout p' = [''[03:04:05.000067] tester1 arrived (HTTP/1.1)'']"
    unfolding ts ids out by simp
  with ts run show ?thesis
    by blast
qed

section \<open>The identifier and the protocol label\<close>

text \<open>
  C4, as the specification states it, fails on a request that sends the header \<open>my_id\<close>
  with an empty value: the header is present, its value is the empty string, and the
  handler's identifier is \<open>unknown\<close>, since \<open>||\<close> takes the empty string for a missing value.
\<close>

theorem identifier_counterexample:
  "headers empty_id_request ''my_id'' = Some [] \<and>
   spec_identifier empty_id_request = [] \<and>
   myId empty_id_request = ''unknown'' \<and>
   myId empty_id_request \<noteq> spec_identifier empty_id_request"
  by (simp add: empty_id_request_def spec_identifier_def myId_def or_default_def truthy_def)

text \<open>
  C4, amended: the identifier is the value of the header \<open>my_id\<close> if the header is present
  with a non-empty value, and the literal \<open>unknown\<close> if the header is absent or empty; the
  line that the handler logs holds this identifier, between the timestamp and the word
  \<open>arrived\<close>.
\<close>

theorem identifier_from_header:
  "(headers request ''my_id'' = Some v \<and> v \<noteq> [] \<longrightarrow> myId request = v) \<and>
   (headers request ''my_id'' = None \<or> headers request ''my_id'' = Some [] \<longrightarrow>
      myId request = ''unknown'') \<and>
   (\<exists>payload rep' p' ts rest. handler request rep p = Some (payload, rep', p') \<and>
      stdout p' = stdout p @ [ts @ '' '' @ myId request @ '' arrived'' @ rest])"
proof (intro conjI impI)
  assume "headers request ''my_id'' = Some v \<and> v \<noteq> []"
  then show "myId request = v"
    by (simp add: myId_def or_default_def truthy_def)
next
  assume "headers request ''my_id'' = None \<or> headers request ''my_id'' = Some []"
  then show "myId request = ''unknown''"
    by (auto simp add: myId_def or_default_def truthy_def)
next
  let ?line = "formatTimestamp (clock p) @ '' '' @ myId request @ '' arrived''
           @ ('' ('' @ protocol request @ '')'')"
  let ?p' = "(console_log (formatTimestamp (clock p) @ '' '' @ myId request
              @ '' arrived ('' @ protocol request @ '')'') p)
           \<lparr>random_source := \<lambda>i. random_source p (230400 + i)\<rparr>"
  have "stdout ?p' = stdout p @ [?line]"
    by (simp add: console_log_def)
  with handler_eq [of request rep p]
  show "\<exists>payload rep' p' ts rest. handler request rep p = Some (payload, rep', p') \<and>
      stdout p' = stdout p @ [ts @ '' '' @ myId request @ '' arrived'' @ rest]"
    by blast
qed

theorem identifier_from_header_witness:
  "(headers tester1_request ''my_id'' = Some ''tester1'' \<and> ''tester1'' \<noteq> [] \<and>
      myId tester1_request = ''tester1'') \<and>
   (headers anonymous_request ''my_id'' = None \<and> myId anonymous_request = ''unknown'')"
proof -
  have present: "headers tester1_request ''my_id'' = Some ''tester1'' \<and> ''tester1'' \<noteq> []"
    by (simp add: tester1_request_def)
  have absent: "headers anonymous_request ''my_id'' = None"
    by (simp add: anonymous_request_def)
  from present identifier_from_header [of tester1_request "''tester1''"]
  have "myId tester1_request = ''tester1''" by blast
  moreover from absent identifier_from_header [of anonymous_request]
  have "myId anonymous_request = ''unknown''" by blast
  ultimately show ?thesis using present absent by blast
qed

text \<open>
  The server as the source creates it hands no request with a pseudo-header to the
  handler, so the label of every line that it logs is \<open>HTTP/1.1\<close>.
\<close>

lemma handed_requests_are_http11:
  assumes "before_handler ps request = None"
  shows "protocol request = ''HTTP/1.1''"
proof -
  from assms have "\<not> carries_pseudo_headers request"
    by (auto simp add: before_handler_def split: if_splits)
  then have "headers request '':scheme'' = None"
    by (simp add: carries_pseudo_headers_def pseudo_header_names_def)
  then show ?thesis
    by (simp add: protocol_def truthy_def)
qed




section \<open>The response\<close>

text \<open>
  C7, as the specification states it, fails on a request whose content type has no
  parser: for an XML text sent to \<open>POST /\<close> the status of the answer is 415, the
  library's, and its body is not the handler's object.
\<close>

theorem response_counterexample:
  "http11Server_post json_and_text_parsers xml_request fresh_process =
     Some (Refused 415, fresh_process)"
  by (simp add: http11Server_post_def before_handler_def carries_pseudo_headers_def
        pseudo_header_names_def xml_request_def contentTypeParser_run_def
        json_and_text_parsers_def media_type_xml)

text \<open>
  C7, amended: every request to \<open>POST /\<close> that the libraries hand to the handler is
  answered with status 200 and a body whose keys are exactly \<open>status\<close> and \<open>data\<close>, in this
  order, the first with the string \<open>ok\<close>. The handler has no other outcome: for every
  request, reply and process it returns this object, and it returns the reply as it
  received it.
\<close>

theorem response_200_status_ok:
  "\<exists>d p'.
     handler request rep p = Some ([(''status'', JString ''ok''), (''data'', JString d)], rep, p') \<and>
     (before_handler ps request = None \<longrightarrow>
        http11Server_post ps request p =
          Some (Handled \<lparr>status = 200, body = [(''status'', JString ''ok''), (''data'', JString d)]\<rparr>, p')) \<and>
     map fst [(''status'', JString ''ok''), (''data'', JString d)] = [''status'', ''data'']"
  by (simp add: handler_eq http11Server_post_eq)

theorem response_200_status_ok_witness:
  "before_handler json_and_text_parsers tester1_request = None \<and>
   (\<exists>resp p'.
      http11Server_post json_and_text_parsers tester1_request fresh_process = Some (Handled resp, p') \<and>
      status resp = 200 \<and> map fst (body resp) = [''status'', ''data''] \<and>
      map_of (body resp) ''status'' = Some (JString ''ok''))"
proof -
  have through: "before_handler json_and_text_parsers tester1_request = None"
    by (rule before_handler_tester1)
  from response_200_status_ok
    [of tester1_request "\<lparr>statusCode = 200\<rparr>" fresh_process json_and_text_parsers] through
  obtain d p' where
    "http11Server_post json_and_text_parsers tester1_request fresh_process =
       Some (Handled \<lparr>status = 200, body = [(''status'', JString ''ok''), (''data'', JString d)]\<rparr>, p')"
    by blast
  then have "\<exists>resp p'.
      http11Server_post json_and_text_parsers tester1_request fresh_process = Some (Handled resp, p') \<and>
      status resp = 200 \<and> map fst (body resp) = [''status'', ''data''] \<and>
      map_of (body resp) ''status'' = Some (JString ''ok'')"
    by simp
  with through show ?thesis by blast
qed

section \<open>The start of the server\<close>

text \<open>
  C8: if the listener cannot be bound, \<open>start\<close> writes the error to standard error and
  the process exits with code 1, without the startup message; if it is bound, the
  startup message is written to standard output, nothing goes to standard error and the
  exit code is left as it was (none): the process does not exit.
\<close>

theorem start_bind_failure:
  "(os_bind \<lparr>port = 24420, host = ''0.0.0.0''\<rparr> = Some err \<longrightarrow>
      stderr (start os_bind p) = stderr p @ [err] \<and>
      exit_code (start os_bind p) = Some 1 \<and>
      stdout (start os_bind p) = stdout p) \<and>
   (os_bind \<lparr>port = 24420, host = ''0.0.0.0''\<rparr> = None \<longrightarrow>
      stdout (start os_bind p) = stdout p @ [''HTTP server (HTTP/1.1) is running on port 24420''] \<and>
      stderr (start os_bind p) = stderr p \<and>
      exit_code (start os_bind p) = exit_code p)"
  by (simp add: start_def listen_def console_log_def console_error_def process_exit_def)

theorem start_bind_failure_witness:
  "(\<lambda>opts. Some ''EADDRINUSE'') \<lparr>port = 24420, host = ''0.0.0.0''\<rparr> = Some ''EADDRINUSE'' \<and>
   stderr (start (\<lambda>opts. Some ''EADDRINUSE'') fresh_process) = [''EADDRINUSE''] \<and>
   exit_code (start (\<lambda>opts. Some ''EADDRINUSE'') fresh_process) = Some 1 \<and>
   stdout (start (\<lambda>opts. Some ''EADDRINUSE'') fresh_process) = [] \<and>
   (\<lambda>opts. None :: string option) \<lparr>port = 24420, host = ''0.0.0.0''\<rparr> = None \<and>
   stdout (start (\<lambda>opts. None) fresh_process) =
     [''HTTP server (HTTP/1.1) is running on port 24420''] \<and>
   exit_code (start (\<lambda>opts. None) fresh_process) = None"
  using start_bind_failure [of "\<lambda>opts. Some ''EADDRINUSE''" "''EADDRINUSE''" fresh_process]
    start_bind_failure [of "\<lambda>opts. None" "''EADDRINUSE''" fresh_process]
  by (simp add: fresh_process_def)

text \<open>
  C3: the server listens on port 24420 of the address \<open>0.0.0.0\<close> (when the address is
  granted, that is what the process records). The other half of the claim, cleartext
  HTTP/2 next to HTTP/1.1 on that port, is what the comments of the source announce and
  not what its options ask for: the option \<open>http2\<close> of the server is \<open>false\<close>.
\<close>

theorem server_listens_without_http2:
  "http2 http11Server_options = False \<and>
   listening (start (\<lambda>opts. None) p) = Some \<lparr>port = 24420, host = ''0.0.0.0''\<rparr>"
  by (simp add: http11Server_options_def start_def listen_def console_log_def)

section \<open>The payload and the entropy\<close>

lemma length_base64_alphabet: "length base64_alphabet = 64"
  by (simp add: base64_alphabet_def)

lemma distinct_base64_alphabet: "distinct base64_alphabet"
  by (simp add: base64_alphabet_def)

lemma pad_not_in_alphabet: "CHR ''='' \<notin> set base64_alphabet"
  by (simp add: base64_alphabet_def)

lemma base64_char_inj: "i < 64 \<Longrightarrow> j < 64 \<Longrightarrow> base64_char i = base64_char j \<longleftrightarrow> i = j"
  by (simp add: base64_char_def nth_eq_iff_index_eq distinct_base64_alphabet length_base64_alphabet)

lemma base64_char_not_pad:
  assumes "i < 64"
  shows "base64_char i \<noteq> CHR ''=''"
proof
  assume "base64_char i = CHR ''=''"
  moreover from assms have "base64_alphabet ! i \<in> set base64_alphabet"
    by (simp add: length_base64_alphabet)
  ultimately show False
    using pad_not_in_alphabet by (simp add: base64_char_def)
qed

lemma unat_byte_less: "unat (a :: byte) < 256"
  using unsigned_less [of a, where 'a = nat] by simp

lemma radix_inj:
  fixes p q p' q' k :: nat
  assumes "q < k" "q' < k" "p * k + q = p' * k + q'"
  shows "p = p' \<and> q = q'"
proof -
  have "(p * k + q) div k = p" "(p' * k + q') div k = p'"
    using assms(1,2) by simp_all
  with assms(3) have "p = p'" by simp
  with assms(3) show ?thesis by simp
qed

lemma byte_eqI:
  fixes a a' :: byte
  assumes "unat a div k = unat a' div k" "unat a mod k = unat a' mod k"
  shows "a = a'"
proof -
  have "unat a = k * (unat a div k) + unat a mod k" by simp
  also have "\<dots> = k * (unat a' div k) + unat a' mod k" using assms by simp
  also have "\<dots> = unat a'" by simp
  finally show ?thesis by (simp add: word_unat_eq_iff)
qed


lemma sextets_less:
  fixes a b :: byte
  shows "unat a div 4 < 64"
    and "unat a mod 4 * 16 + unat b div 16 < 64"
    and "unat a mod 4 * 16 < 64"
    and "unat a mod 16 * 4 + unat b div 64 < 64"
    and "unat a mod 16 * 4 < 64"
    and "unat a mod 64 < 64"
proof -
  have a: "unat a < 256" and b: "unat b < 256" by (rule unat_byte_less)+
  have m4: "unat a mod 4 < 4" and m16: "unat a mod 16 < 16" by simp_all
  from a show "unat a div 4 < 64" by simp
  from b have "unat b div 16 < 16" by simp
  with m4 show "unat a mod 4 * 16 + unat b div 16 < 64" by linarith
  from m4 show "unat a mod 4 * 16 < 64" by linarith
  from b have "unat b div 64 < 4" by simp
  with m16 show "unat a mod 16 * 4 + unat b div 64 < 64" by linarith
  from m16 show "unat a mod 16 * 4 < 64" by linarith
  show "unat a mod 64 < 64" by simp
qed

lemma sextets_not_pad:
  fixes a b :: byte
  shows "base64_char (unat a div 4) \<noteq> CHR ''=''"
    and "base64_char (unat a mod 4 * 16 + unat b div 16) \<noteq> CHR ''=''"
    and "base64_char (unat a mod 4 * 16) \<noteq> CHR ''=''"
    and "base64_char (unat a mod 16 * 4 + unat b div 64) \<noteq> CHR ''=''"
    and "base64_char (unat a mod 16 * 4) \<noteq> CHR ''=''"
    and "base64_char (unat a mod 64) \<noteq> CHR ''=''"
  by (rule base64_char_not_pad, rule sextets_less)+

lemma first_sextets_inj:
  fixes a a' :: byte
  assumes "base64_char (unat a div 4) = base64_char (unat a' div 4)"
    and "base64_char (unat a mod 4 * 16 + n) = base64_char (unat a' mod 4 * 16 + n')"
    and "n < 16" "n' < 16"
  shows "a = a' \<and> n = n'"
proof -
  from assms(1) have d: "unat a div 4 = unat a' div 4"
    by (simp add: base64_char_inj sextets_less)
  have m: "unat a mod 4 < 4" "unat a' mod 4 < 4" by simp_all
  from m(1) assms(3) have "unat a mod 4 * 16 + n < 64" by linarith
  moreover from m(2) assms(4) have "unat a' mod 4 * 16 + n' < 64" by linarith
  ultimately have "unat a mod 4 * 16 + n = unat a' mod 4 * 16 + n'"
    using assms(2) by (simp add: base64_char_inj)
  with assms(3,4) have "unat a mod 4 = unat a' mod 4 \<and> n = n'"
    by (rule radix_inj)
  with d show ?thesis by (simp add: byte_eqI)
qed

lemma second_sextets_inj:
  fixes b b' :: byte
  assumes "unat b div 16 = unat b' div 16"
    and "base64_char (unat b mod 16 * 4 + n) = base64_char (unat b' mod 16 * 4 + n')"
    and "n < 4" "n' < 4"
  shows "b = b' \<and> n = n'"
proof -
  have m: "unat b mod 16 < 16" "unat b' mod 16 < 16" by simp_all
  from m(1) assms(3) have "unat b mod 16 * 4 + n < 64" by linarith
  moreover from m(2) assms(4) have "unat b' mod 16 * 4 + n' < 64" by linarith
  ultimately have "unat b mod 16 * 4 + n = unat b' mod 16 * 4 + n'"
    using assms(2) by (simp add: base64_char_inj)
  with assms(3,4) have "unat b mod 16 = unat b' mod 16 \<and> n = n'"
    by (rule radix_inj)
  with assms(1) show ?thesis by (simp add: byte_eqI)
qed

lemma third_sextet_inj:
  fixes c c' :: byte
  assumes "unat c div 64 = unat c' div 64"
    and "base64_char (unat c mod 64) = base64_char (unat c' mod 64)"
  shows "c = c'"
proof -
  from assms(2) have "unat c mod 64 = unat c' mod 64"
    by (simp add: base64_char_inj)
  with assms(1) show ?thesis by (rule byte_eqI)
qed

lemma group1_inj:
  fixes a a' :: byte
  assumes "base64_char (unat a div 4) = base64_char (unat a' div 4)"
    and "base64_char (unat a mod 4 * 16) = base64_char (unat a' mod 4 * 16)"
  shows "a = a'"
  using first_sextets_inj [of a a' 0 0] assms by simp

lemma group2_inj:
  fixes a a' b b' :: byte
  assumes "base64_char (unat a div 4) = base64_char (unat a' div 4)"
    and "base64_char (unat a mod 4 * 16 + unat b div 16) = base64_char (unat a' mod 4 * 16 + unat b' div 16)"
    and "base64_char (unat b mod 16 * 4) = base64_char (unat b' mod 16 * 4)"
  shows "a = a' \<and> b = b'"
proof -
  have "unat b < 256" "unat b' < 256" by (rule unat_byte_less)+
  then have "unat b div 16 < 16" "unat b' div 16 < 16" by simp_all
  with assms(1,2) have ab: "a = a' \<and> unat b div 16 = unat b' div 16"
    by (rule first_sextets_inj)
  with assms(3) second_sextets_inj [of b b' 0 0] show ?thesis by simp
qed

lemma group3_inj:
  fixes a a' b b' c c' :: byte
  assumes "base64_char (unat a div 4) = base64_char (unat a' div 4)"
    and "base64_char (unat a mod 4 * 16 + unat b div 16) = base64_char (unat a' mod 4 * 16 + unat b' div 16)"
    and "base64_char (unat b mod 16 * 4 + unat c div 64) = base64_char (unat b' mod 16 * 4 + unat c' div 64)"
    and "base64_char (unat c mod 64) = base64_char (unat c' mod 64)"
  shows "a = a' \<and> b = b' \<and> c = c'"
proof -
  have "unat b < 256" "unat b' < 256" "unat c < 256" "unat c' < 256" by (rule unat_byte_less)+
  then have bounds: "unat b div 16 < 16" "unat b' div 16 < 16" "unat c div 64 < 4" "unat c' div 64 < 4"
    by simp_all
  from assms(1,2) bounds(1,2) have ab: "a = a' \<and> unat b div 16 = unat b' div 16"
    by (rule first_sextets_inj)
  then have "unat b div 16 = unat b' div 16" ..
  from this assms(3) bounds(3,4) have bc: "b = b' \<and> unat c div 64 = unat c' div 64"
    by (rule second_sextets_inj)
  then have "unat c div 64 = unat c' div 64" ..
  from this assms(4) have "c = c'" by (rule third_sextet_inj)
  with ab bc show ?thesis by simp
qed


lemmas pad_differs = sextets_not_pad sextets_not_pad [THEN not_sym]

lemma toString_base64_inj: "toString_base64 xs = toString_base64 ys \<Longrightarrow> xs = ys"
proof (induction xs arbitrary: ys rule: toString_base64.induct)
  case 1
  then show ?case by (cases ys rule: toString_base64.cases) simp_all
next
  case (2 a)
  then show ?case
    by (cases ys rule: toString_base64.cases) (simp_all add: pad_differs group1_inj)
next
  case (3 a b)
  show ?case
  proof (cases ys rule: toString_base64.cases)
    case (3 a' b')
    with "3.prems" have
      "base64_char (unat a div 4) = base64_char (unat a' div 4)"
      "base64_char (unat a mod 4 * 16 + unat b div 16) = base64_char (unat a' mod 4 * 16 + unat b' div 16)"
      "base64_char (unat b mod 16 * 4) = base64_char (unat b' mod 16 * 4)"
      by simp_all
    then have "a = a' \<and> b = b'" by (rule group2_inj)
    with 3 show ?thesis by simp
  qed (use "3.prems" in \<open>simp_all add: pad_differs\<close>)
next
  case (4 a b c rest)
  show ?case
  proof (cases ys rule: toString_base64.cases)
    case (4 a' b' c' rest')
    with "4.prems" have heads:
      "base64_char (unat a div 4) = base64_char (unat a' div 4)"
      "base64_char (unat a mod 4 * 16 + unat b div 16) = base64_char (unat a' mod 4 * 16 + unat b' div 16)"
      "base64_char (unat b mod 16 * 4 + unat c div 64) = base64_char (unat b' mod 16 * 4 + unat c' div 64)"
      "base64_char (unat c mod 64) = base64_char (unat c' mod 64)"
      and tails: "toString_base64 rest = toString_base64 rest'"
      by simp_all
    from heads have "a = a' \<and> b = b' \<and> c = c'" by (rule group3_inj)
    moreover from tails have "rest = rest'" by (rule "4.IH")
    ultimately show ?thesis using 4 by simp
  qed (use "4.prems" in \<open>simp_all add: pad_differs\<close>)
qed

lemma take_toString_base64:
  "3 * k \<le> length bs \<Longrightarrow> take (4 * k) (toString_base64 bs) = toString_base64 (take (3 * k) bs)"
proof (induction k arbitrary: bs)
  case 0
  show ?case by simp
next
  case (Suc k)
  then obtain a b c rest where bs: "bs = a # b # c # rest"
    by (cases bs rule: toString_base64.cases) simp_all
  with Suc.prems have "3 * k \<le> length rest" by simp
  then have IH: "take (4 * k) (toString_base64 rest) = toString_base64 (take (3 * k) rest)"
    by (rule Suc.IH)
  have four: "4 * Suc k = Suc (Suc (Suc (Suc (4 * k))))" and three: "3 * Suc k = Suc (Suc (Suc (3 * k)))"
    by simp_all
  show ?case
    unfolding bs four three by (simp only: toString_base64.simps take_Suc_Cons append.simps IH)
qed


lemma toString_base64_map_eq_iff:
  "toString_base64 (map r1 is) = toString_base64 (map r2 is) \<longleftrightarrow> (\<forall>i\<in>set is. r1 i = r2 i)"
proof
  assume "toString_base64 (map r1 is) = toString_base64 (map r2 is)"
  then have "map r1 is = map r2 is" by (rule toString_base64_inj)
  then show "\<forall>i\<in>set is. r1 i = r2 i" by (simp add: map_eq_conv)
next
  assume "\<forall>i\<in>set is. r1 i = r2 i"
  then have "map r1 is = map r2 is" by (simp add: map_eq_conv)
  then show "toString_base64 (map r1 is) = toString_base64 (map r2 is)" by (rule arg_cong)
qed

lemma spec_accumulate_eq_iff:
  "spec_accumulate n r1 = spec_accumulate n r2 \<longleftrightarrow> (\<forall>i<1024 * n. r1 i = r2 i)"
proof (induction n)
  case 0
  show ?case by simp
next
  case (Suc n)
  have "spec_accumulate (Suc n) r1 = spec_accumulate (Suc n) r2 \<longleftrightarrow>
      spec_accumulate n r1 = spec_accumulate n r2 \<and>
      toString_base64 (map r1 [1024 * n ..< 1024 * n + 1024]) =
      toString_base64 (map r2 [1024 * n ..< 1024 * n + 1024])"
    by (simp add: length_spec_accumulate)
  also have "\<dots> \<longleftrightarrow> (\<forall>i<1024 * n. r1 i = r2 i) \<and>
      (\<forall>i\<in>set [1024 * n ..< 1024 * n + 1024]. r1 i = r2 i)"
    by (simp only: Suc.IH toString_base64_map_eq_iff)
  also have "\<dots> \<longleftrightarrow> (\<forall>i<1024 * Suc n. r1 i = r2 i)"
  proof -
    have "i < 1024 * Suc n \<longleftrightarrow> i < 1024 * n \<or> i \<in> set [1024 * n ..< 1024 * n + 1024]" for i
      by auto
    then show ?thesis by blast
  qed
  finally show ?case .
qed

lemma take_spec_accumulate_Suc:
  assumes "k \<le> 341"
  shows "take (1368 * n + 4 * k) (spec_accumulate (Suc n) r) =
    spec_accumulate n r @ toString_base64 (map r [1024 * n ..< 1024 * n + 3 * k])"
proof -
  let ?block = "map r [1024 * n ..< 1024 * n + 1024]"
  from assms have fits: "3 * k \<le> length ?block" by simp
  have "take (1368 * n + 4 * k) (spec_accumulate (Suc n) r) =
      spec_accumulate n r @ take (4 * k) (toString_base64 ?block)"
    by (simp add: length_spec_accumulate)
  also from fits have "take (4 * k) (toString_base64 ?block) = toString_base64 (take (3 * k) ?block)"
    by (rule take_toString_base64)
  also from assms have "take (3 * k) ?block = map r [1024 * n ..< 1024 * n + 3 * k]"
    by (simp add: take_map)
  finally show ?thesis .
qed

lemma retained_eq_iff:
  assumes "k \<le> 341"
  shows "take (1368 * n + 4 * k) (spec_accumulate (Suc n) r1) =
      take (1368 * n + 4 * k) (spec_accumulate (Suc n) r2) \<longleftrightarrow>
    (\<forall>i<1024 * n + 3 * k. r1 i = r2 i)"
proof -
  have "take (1368 * n + 4 * k) (spec_accumulate (Suc n) r1) =
      take (1368 * n + 4 * k) (spec_accumulate (Suc n) r2) \<longleftrightarrow>
    spec_accumulate n r1 = spec_accumulate n r2 \<and>
    toString_base64 (map r1 [1024 * n ..< 1024 * n + 3 * k]) =
    toString_base64 (map r2 [1024 * n ..< 1024 * n + 3 * k])"
    unfolding take_spec_accumulate_Suc [OF assms] by (simp add: length_spec_accumulate)
  also have "\<dots> \<longleftrightarrow> (\<forall>i<1024 * n. r1 i = r2 i) \<and>
      (\<forall>i\<in>set [1024 * n ..< 1024 * n + 3 * k]. r1 i = r2 i)"
    by (simp only: spec_accumulate_eq_iff toString_base64_map_eq_iff)
  also have "\<dots> \<longleftrightarrow> (\<forall>i<1024 * n + 3 * k. r1 i = r2 i)"
  proof -
    have "i < 1024 * n + 3 * k \<longleftrightarrow> i < 1024 * n \<or> i \<in> set [1024 * n ..< 1024 * n + 3 * k]" for i
      by auto
    then show ?thesis by blast
  qed
  finally show ?thesis .
qed

lemma data_eq_iff:
  "take 307200 (spec_accumulate 225 r1) = take 307200 (spec_accumulate 225 r2) \<longleftrightarrow>
   (\<forall>i<229952. r1 i = r2 i)"
  using retained_eq_iff [of 192 224 r1 r2] by simp

text \<open>
  C9: the handler holds no payload of its own. The \<open>data\<close> of a request is what a new run
  of \<open>generateRandomString 300\<close> returns on the entropy of the process at that moment, and
  the run consumes 225 blocks of 1024 bytes, so that the next request draws other bytes.
  Of the bytes drawn, the first 229952 (224 blocks and 576 bytes of the last one) are
  retained in the 307200 characters, and they are retained faithfully: the \<open>data\<close> of two
  runs are equal exactly when their entropy agrees on all of these bytes. Two runs whose
  entropy differs at one retained position return different \<open>data\<close>.
\<close>

theorem data_fresh_per_request:
  "\<exists>d1 d2 p1' p2'.
     handler request1 rep1 p1 = Some ([(''status'', JString ''ok''), (''data'', JString d1)], rep1, p1') \<and>
     handler request2 rep2 p2 = Some ([(''status'', JString ''ok''), (''data'', JString d2)], rep2, p2') \<and>
     generateRandomString 300 (random_source p1) = Some (d1, random_source p1') \<and>
     generateRandomString 300 (random_source p2) = Some (d2, random_source p2') \<and>
     random_source p1' = (\<lambda>i. random_source p1 (230400 + i)) \<and>
     random_source p2' = (\<lambda>i. random_source p2 (230400 + i)) \<and>
     (d1 = d2 \<longleftrightarrow> (\<forall>i<229952. random_source p1 i = random_source p2 i))"
  by (simp add: handler_eq generateRandomString_eq chunks_needed_300 data_eq_iff console_log_def)

theorem data_fresh_per_request_witness:
  "(1::nat) < 229952 \<and> random_source fresh_process 1 \<noteq> random_source zero_process 1 \<and>
   (\<exists>d1 d2 p1' p2'.
     handler tester1_request \<lparr>statusCode = 200\<rparr> fresh_process =
       Some ([(''status'', JString ''ok''), (''data'', JString d1)], \<lparr>statusCode = 200\<rparr>, p1') \<and>
     handler tester1_request \<lparr>statusCode = 200\<rparr> zero_process =
       Some ([(''status'', JString ''ok''), (''data'', JString d2)], \<lparr>statusCode = 200\<rparr>, p2') \<and>
     d1 \<noteq> d2)"
proof -
  have differ: "random_source fresh_process 1 \<noteq> random_source zero_process 1"
    by (simp add: fresh_process_def zero_process_def counting_entropy_def)
  then have "\<not> (\<forall>i<229952. random_source fresh_process i = random_source zero_process i)"
    by (metis one_less_numeral_iff semiring_norm(76))
  with data_fresh_per_request
    [of tester1_request "\<lparr>statusCode = 200\<rparr>" fresh_process tester1_request "\<lparr>statusCode = 200\<rparr>" zero_process]
  have "\<exists>d1 d2 p1' p2'.
     handler tester1_request \<lparr>statusCode = 200\<rparr> fresh_process =
       Some ([(''status'', JString ''ok''), (''data'', JString d1)], \<lparr>statusCode = 200\<rparr>, p1') \<and>
     handler tester1_request \<lparr>statusCode = 200\<rparr> zero_process =
       Some ([(''status'', JString ''ok''), (''data'', JString d2)], \<lparr>statusCode = 200\<rparr>, p2') \<and>
     d1 \<noteq> d2"
    by blast
  with differ show ?thesis by simp
qed

end
